theory Spec2Isabelle
  imports Main
begin

section \<open>Query text\<close>

text \<open>
  The query is a Python \<open>str\<close>.  The model covers the texts whose code points lie
  below 256, one \<open>char\<close> per code point (ASCII and the Latin-1 supplement); all the
  keywords of \<open>app.py\<close> are ASCII.  On these code points \<open>str.lower()\<close> works
  character by character and keeps the length: it adds 32 to \<open>A\<close>..\<open>Z\<close> (65..90) and to
  the upper-case letters 192..222 except the multiplication sign 215, and leaves every
  other code point as it is.
\<close>

definition char_lower :: "char \<Rightarrow> char" where
  "char_lower c =
     (let n = (of_char c :: nat)
      in if (65 \<le> n \<and> n \<le> 90) \<or> (192 \<le> n \<and> n \<le> 222 \<and> n \<noteq> 215)
         then char_of (n + 32) else c)"

definition py_lower :: "string \<Rightarrow> string" where
  "py_lower s = map char_lower s"

text \<open>\<open>w in s\<close> on two strings: \<open>w\<close> occurs in \<open>s\<close> as a contiguous run of characters.\<close>

fun starts_with :: "string \<Rightarrow> string \<Rightarrow> bool" where
  "starts_with [] s = True"
| "starts_with (c # w) [] = False"
| "starts_with (c # w) (d # s) = (c = d \<and> starts_with w s)"

fun str_in :: "string \<Rightarrow> string \<Rightarrow> bool" where
  "str_in w [] = (w = [])"
| "str_in w (c # s) = (starts_with w (c # s) \<or> str_in w s)"

text \<open>\<open>any(word in query_lower for word in words)\<close>\<close>

definition any_word_in :: "string list \<Rightarrow> string \<Rightarrow> bool" where
  "any_word_in ws s = list_ex (\<lambda>w. str_in w s) ws"

section \<open>Intent classification: \<open>_determine_intent\<close>\<close>

definition checklist_words :: "string list" where
  "checklist_words = [''checklist'', ''list'', ''steps'', ''procedures'']"

definition report_words :: "string list" where
  "report_words = [''report'', ''analysis'', ''summary'', ''overview'']"

definition insights_words :: "string list" where
  "insights_words = [''insights'', ''trends'', ''patterns'', ''analysis'']"

definition determine_intent :: "string \<Rightarrow> string" where
  "determine_intent query =
     (let query_lower = py_lower query
      in if any_word_in checklist_words query_lower then ''checklist''
         else if any_word_in report_words query_lower then ''report''
         else if any_word_in insights_words query_lower then ''insights''
         else ''general'')"

section \<open>Python values and errors\<close>

text \<open>
  Python is dynamically typed: a caller can hand any object to a parameter, and a
  dictionary can hold any object under a key.  The values that matter here are strings,
  integers and \<open>None\<close>; the errors are the two that the operations used here raise
  on an object of the wrong type.
\<close>

datatype pyval = PStr string | PInt int | PNone

datatype py_error = AttributeError | TypeError

text \<open>\<open>query.lower()\<close>: only a string has the method.\<close>

definition lower_method :: "pyval \<Rightarrow> py_error + pyval" where
  "lower_method v =
     (case v of PStr s \<Rightarrow> Inr (PStr (py_lower s)) | PInt n \<Rightarrow> Inl AttributeError
      | PNone \<Rightarrow> Inl AttributeError)"

text \<open>\<open>word in v\<close> for a string literal \<open>word\<close>: \<open>v\<close> must be a string.\<close>

definition in_op :: "string \<Rightarrow> pyval \<Rightarrow> py_error + bool" where
  "in_op w v =
     (case v of PStr s \<Rightarrow> Inr (str_in w s) | PInt n \<Rightarrow> Inl TypeError
      | PNone \<Rightarrow> Inl TypeError)"

text \<open>
  \<open>any(word in v for word in words)\<close>: the words are tried from the left, the first
  hit ends the search, and an error of a test ends it too.
\<close>

fun any_in_op :: "string list \<Rightarrow> pyval \<Rightarrow> py_error + bool" where
  "any_in_op [] v = Inr False"
| "any_in_op (w # ws) v =
     (case in_op w v of
        Inl e \<Rightarrow> Inl e
      | Inr b \<Rightarrow> if b then Inr True else any_in_op ws v)"

text \<open>
  The state that the methods of the application share: the status of every agent in
  \<open>st.session_state.agent_status\<close>, a dictionary kept in insertion order.
\<close>

record app_state =
  agent_status :: "(string \<times> string) list"

text \<open>
  \<open>_determine_intent\<close> as a method: it gets any object as \<open>query\<close> and runs in the
  application state; it returns a value or raises, and leaves a state behind.
\<close>

definition determine_intent_run ::
    "pyval \<Rightarrow> app_state \<Rightarrow> (py_error + string) \<times> app_state" where
  "determine_intent_run query st =
     (case lower_method query of
        Inl e \<Rightarrow> (Inl e, st)
      | Inr query_lower \<Rightarrow>
          (case any_in_op checklist_words query_lower of
             Inl e \<Rightarrow> (Inl e, st)
           | Inr c \<Rightarrow>
               if c then (Inr ''checklist'', st)
               else (case any_in_op report_words query_lower of
                       Inl e \<Rightarrow> (Inl e, st)
                     | Inr r \<Rightarrow>
                         if r then (Inr ''report'', st)
                         else (case any_in_op insights_words query_lower of
                                 Inl e \<Rightarrow> (Inl e, st)
                               | Inr n \<Rightarrow>
                                   if n then (Inr ''insights'', st)
                                   else (Inr ''general'', st)))))"

section \<open>Agent selection: \<open>_get_relevant_agents\<close>\<close>

definition company_words :: "string list" where
  "company_words = [''hovione'', ''boehringer'', ''thermo fisher'', ''company'']"

definition audit_words :: "string list" where
  "audit_words = [''audit'', ''compliance'', ''checklist'']"

definition quality_words :: "string list" where
  "quality_words = [''quality'', ''snc'', ''deviation'']"

definition conference_words :: "string list" where
  "conference_words = [''conference'', ''event'', ''meeting'']"

definition web_words :: "string list" where
  "web_words = [''fda'', ''warning'', ''due diligence'']"

definition all_agents :: "string list" where
  "all_agents =
     [''web_scraper'', ''internal_audit'', ''external_conference'', ''quality_systems'', ''sop'']"

text \<open>
  The list after the five keyword rules, before the final length test: the marker
  \<open>orchestrator\<close>, then what each rule whose keywords occur appends, in the order of
  the source.
\<close>

definition collected_agents :: "string \<Rightarrow> string list" where
  "collected_agents query_lower =
     [''orchestrator'']
     @ (if any_word_in company_words query_lower
        then [''quality_systems'', ''external_conference''] else [])
     @ (if any_word_in audit_words query_lower then [''internal_audit'', ''sop''] else [])
     @ (if any_word_in quality_words query_lower then [''quality_systems''] else [])
     @ (if any_word_in conference_words query_lower then [''external_conference''] else [])
     @ (if any_word_in web_words query_lower then [''web_scraper''] else [])"

text \<open>The parameter \<open>intent\<close> is accepted and never read, as in the source.\<close>

definition get_relevant_agents :: "string \<Rightarrow> string \<Rightarrow> string list" where
  "get_relevant_agents query intent =
     (let query_lower = py_lower query;
          relevant_agents = collected_agents query_lower
      in if length relevant_agents \<le> 1 then all_agents else relevant_agents)"

section \<open>Metrics of the response: \<open>_display_smart_response\<close>\<close>













section \<open>Upper case\<close>

text \<open>
  \<open>str.upper()\<close> on the code points below 256: it subtracts 32 from \<open>a\<close>..\<open>z\<close>
  (97..122) and from the lower-case letters 224..254 except the division sign 247, and
  turns the sharp s (223) into the two letters \<open>SS\<close>.  The upper-case forms of the
  micro sign (181) and of y with diaeresis (255) are code points above 255, outside this
  model: there the result is \<open>None\<close>.  Every other code point stays as it is.
\<close>

definition char_upper :: "char \<Rightarrow> string option" where
  "char_upper c =
     (let n = (of_char c :: nat)
      in if (97 \<le> n \<and> n \<le> 122) \<or> (224 \<le> n \<and> n \<le> 254 \<and> n \<noteq> 247)
         then Some [char_of (n - 32)]
         else if n = 223 then Some ''SS''
         else if n = 181 \<or> n = 255 then None
         else Some [c])"

fun py_upper :: "string \<Rightarrow> string option" where
  "py_upper [] = Some []"
| "py_upper (c # s) =
     (case char_upper c of
        None \<Rightarrow> None
      | Some u \<Rightarrow> (case py_upper s of None \<Rightarrow> None | Some us \<Rightarrow> Some (u @ us)))"

section \<open>Words of the specification\<close>

definition real_agent :: "string \<Rightarrow> bool" where
  "real_agent a = (a \<in> set all_agents)"

text \<open>
  Two texts differ only in the case of single letters: they have the same length, and at
  every position the second has the character of the first, its lower-case form, or its
  upper-case form where that is one character.
\<close>

definition same_letter :: "char \<Rightarrow> char \<Rightarrow> bool" where
  "same_letter a b = (b = a \<or> b = char_lower a \<or> char_upper a = Some [b])"

definition letter_case_variant :: "string \<Rightarrow> string \<Rightarrow> bool" where
  "letter_case_variant q r = list_all2 same_letter q r"

text \<open>
  The words of a text are its maximal runs of characters other than the space; a
  matcher by whole words would look for a keyword among them.
\<close>

definition add_char :: "char \<Rightarrow> string list \<Rightarrow> string list" where
  "add_char c ws =
     (if c = CHR '' '' then [] # ws
      else (case ws of [] \<Rightarrow> [[c]] | w # ws' \<Rightarrow> (c # w) # ws'))"

definition words_of :: "string \<Rightarrow> string list" where
  "words_of s = filter (\<lambda>w. w \<noteq> []) (foldr add_char s [[]])"

definition whole_word_match :: "string list \<Rightarrow> string \<Rightarrow> bool" where
  "whole_word_match ws query = list_ex (\<lambda>w. w \<in> set ws) (words_of (py_lower query))"



text \<open>
  A keyword occurs in a text when the text is some prefix, the keyword, and some suffix;
  a text mentions a vocabulary when one of its keywords occurs in the lower-cased text.
\<close>

definition occurs_in :: "string \<Rightarrow> string \<Rightarrow> bool" where
  "occurs_in w s = (\<exists>p t. s = p @ w @ t)"

definition mentions :: "string list \<Rightarrow> string \<Rightarrow> bool" where
  "mentions ws query = (\<exists>w \<in> set ws. occurs_in w (py_lower query))"

text \<open>
  The union of what the five keyword rules add, rule by rule: company names, audit and
  compliance, quality and deviations, conferences and events, regulatory sources.
\<close>

definition rule_union :: "string \<Rightarrow> string set" where
  "rule_union query =
     (if mentions company_words query then {''quality_systems'', ''external_conference''} else {})
     \<union> (if mentions audit_words query then {''internal_audit'', ''sop''} else {})
     \<union> (if mentions quality_words query then {''quality_systems''} else {})
     \<union> (if mentions conference_words query then {''external_conference''} else {})
     \<union> (if mentions web_words query then {''web_scraper''} else {})"

section \<open>Substring containment\<close>

lemma starts_with_iff: "starts_with w s \<longleftrightarrow> (\<exists>t. s = w @ t)"
  by (induction w s rule: starts_with.induct) auto

lemma str_in_iff: "str_in w s \<longleftrightarrow> (\<exists>p t. s = p @ w @ t)"
proof (induction s)
  case Nil
  then show ?case by auto
next
  case (Cons c s)
  have "(\<exists>p t. c # s = p @ w @ t) \<longleftrightarrow> (\<exists>t. c # s = w @ t) \<or> (\<exists>p t. s = p @ w @ t)"
  proof
    assume "\<exists>p t. c # s = p @ w @ t"
    then obtain p t where pt: "c # s = p @ w @ t" by blast
    show "(\<exists>t. c # s = w @ t) \<or> (\<exists>p t. s = p @ w @ t)"
    proof (cases p)
      case Nil
      with pt show ?thesis by auto
    next
      case (Cons d p')
      with pt have "s = p' @ w @ t" by simp
      then show ?thesis by blast
    qed
  next
    assume "(\<exists>t. c # s = w @ t) \<or> (\<exists>p t. s = p @ w @ t)"
    then show "\<exists>p t. c # s = p @ w @ t"
    proof
      assume "\<exists>t. c # s = w @ t"
      then obtain t where "c # s = [] @ w @ t" by auto
      then show ?thesis by blast
    next
      assume "\<exists>p t. s = p @ w @ t"
      then obtain p t where "c # s = (c # p) @ w @ t" by auto
      then show ?thesis by blast
    qed
  qed
  with Cons show ?case by (simp add: starts_with_iff)
qed

lemma any_word_in_iff: "any_word_in ws s \<longleftrightarrow> (\<exists>w \<in> set ws. occurs_in w s)"
  by (simp add: any_word_in_def list_ex_iff str_in_iff occurs_in_def)

lemma mentions_iff: "mentions ws query \<longleftrightarrow> any_word_in ws (py_lower query)"
  by (simp add: mentions_def any_word_in_iff)

section \<open>Lower-casing\<close>

lemma py_lower_append: "py_lower (p @ s) = py_lower p @ py_lower s"
  by (simp add: py_lower_def)

lemma char_lower_idem: "char_lower (char_lower c) = char_lower c"
  unfolding char_lower_def Let_def by auto

section \<open>The intent classifier\<close>

text \<open>
  C2. For every query text the classifier answers \<open>checklist\<close> when the lower-cased text
  contains a checklist keyword, otherwise \<open>report\<close> when it contains a report keyword,
  otherwise \<open>insights\<close> when it contains an insights keyword, otherwise \<open>general\<close>:
  the vocabularies are tried in this order and the first that matches decides.
\<close>

theorem determine_intent_priority:
  "determine_intent q =
     (if mentions checklist_words q then ''checklist''
      else if mentions report_words q then ''report''
      else if mentions insights_words q then ''insights''
      else ''general'')"
  by (simp add: determine_intent_def Let_def mentions_iff)

theorem determine_intent_priority_witness:
  "mentions checklist_words ''Summary report of the audit steps'' \<and>
   mentions report_words ''Summary report of the audit steps'' \<and>
   determine_intent ''Summary report of the audit steps'' = ''checklist''"
proof -
  have c: "mentions checklist_words ''Summary report of the audit steps''"
    unfolding mentions_iff by code_simp
  have r: "mentions report_words ''Summary report of the audit steps''"
    unfolding mentions_iff by code_simp
  from c r determine_intent_priority [of "''Summary report of the audit steps''"]
  show ?thesis by simp
qed

lemma any_in_op_str: "any_in_op ws (PStr s) = Inr (any_word_in ws s)"
  by (induction ws) (simp_all add: in_op_def any_word_in_def)

lemma determine_intent_run_str:
  "determine_intent_run (PStr s) st = (Inr (determine_intent s), st)"
  by (simp add: determine_intent_run_def lower_method_def any_in_op_str determine_intent_def)

lemma determine_intent_run_not_str:
  "determine_intent_run PNone st = (Inl AttributeError, st)"
  "determine_intent_run (PInt n) st = (Inl AttributeError, st)"
  by (simp_all add: determine_intent_run_def lower_method_def)

text \<open>
  C8. The classifier is total and pure on strings: run on any string, the empty one
  included, in any state of the application, the method raises nothing, returns one of
  \<open>checklist\<close>, \<open>report\<close>, \<open>insights\<close> and \<open>general\<close>, the same value whatever the
  state, and leaves the state as it was.  (On an object that is no string it raises, as
  \<open>determine_intent_run_not_str\<close> shows.)
\<close>

theorem determine_intent_total:
  "(\<exists>v. determine_intent_run (PStr s) st = (Inr v, st) \<and>
        v \<in> {''checklist'', ''report'', ''insights'', ''general''} \<and>
        (\<forall>st'. determine_intent_run (PStr s) st' = (Inr v, st'))) \<and>
   determine_intent_run (PStr []) st = (Inr ''general'', st)"
proof
  have "determine_intent s \<in> {''checklist'', ''report'', ''insights'', ''general''}"
    by (simp add: determine_intent_def Let_def)
  then show "\<exists>v. determine_intent_run (PStr s) st = (Inr v, st) \<and>
        v \<in> {''checklist'', ''report'', ''insights'', ''general''} \<and>
        (\<forall>st'. determine_intent_run (PStr s) st' = (Inr v, st'))"
    by (simp add: determine_intent_run_str)
  have "determine_intent [] = ''general''" by code_simp
  then show "determine_intent_run (PStr []) st = (Inr ''general'', st)"
    by (simp add: determine_intent_run_str)
qed

theorem determine_intent_total_witness:
  "determine_intent_run (PStr ''Recent trends in deviations'')
     \<lparr>agent_status = [(''sop'', ''idle'')]\<rparr> =
     (Inr ''insights'', \<lparr>agent_status = [(''sop'', ''idle'')]\<rparr>) \<and>
   determine_intent_run (PStr ''Overview of open actions'')
     \<lparr>agent_status = [(''sop'', ''running'')]\<rparr> =
     (Inr ''report'', \<lparr>agent_status = [(''sop'', ''running'')]\<rparr>)"
proof -
  have a: "determine_intent ''Recent trends in deviations'' = ''insights''" by code_simp
  have b: "determine_intent ''Overview of open actions'' = ''report''" by code_simp
  from determine_intent_total [of "''Recent trends in deviations''" "\<lparr>agent_status = [(''sop'', ''idle'')]\<rparr>"]
  show ?thesis by (simp add: determine_intent_run_str a b)
qed

section \<open>Letter case\<close>

lemma py_lower_idem: "py_lower (py_lower q) = py_lower q"
  by (simp add: py_lower_def char_lower_idem)

lemma of_char_sharp_s: "(of_char c :: nat) = 223 \<Longrightarrow> c = CHR 0xDF"
proof -
  assume "(of_char c :: nat) = 223"
  then have "char_of (of_char c :: nat) = char_of (223 :: nat)" by simp
  moreover have "char_of (223 :: nat) = CHR 0xDF" by code_simp
  ultimately show ?thesis by simp
qed

lemma char_upper_lower:
  "char_upper c = Some u \<Longrightarrow> c \<noteq> CHR 0xDF \<Longrightarrow> py_lower u = [char_lower c]"
  unfolding char_upper_def char_lower_def py_lower_def Let_def
  by (auto split: if_splits dest: of_char_sharp_s)

lemma py_upper_lower:
  "py_upper q = Some r \<Longrightarrow> CHR 0xDF \<notin> set q \<Longrightarrow> py_lower r = py_lower q"
proof (induction q arbitrary: r)
  case Nil
  then show ?case by simp
next
  case (Cons c q)
  from Cons.prems(1) obtain u us where u: "char_upper c = Some u" and us: "py_upper q = Some us"
    and r: "r = u @ us"
    by (auto split: option.splits)
  from Cons.prems(2) have "c \<noteq> CHR 0xDF" and "CHR 0xDF \<notin> set q" by auto
  with u us Cons.IH have "py_lower u = [char_lower c]" and "py_lower us = py_lower q"
    by (auto dest: char_upper_lower)
  with r show ?case by (simp add: py_lower_append) (simp add: py_lower_def)
qed

lemma same_letter_lower: "same_letter a b \<Longrightarrow> char_lower b = char_lower a"
  unfolding same_letter_def
proof (elim disjE)
  assume "char_upper a = Some [b]"
  then have "a \<noteq> CHR 0xDF" by (auto simp: char_upper_def)
  with \<open>char_upper a = Some [b]\<close> have "py_lower [b] = [char_lower a]"
    by (rule char_upper_lower)
  then show ?thesis by (simp add: py_lower_def)
qed (simp_all add: char_lower_idem)

lemma letter_case_variant_lower: "letter_case_variant q r \<Longrightarrow> py_lower r = py_lower q"
  unfolding letter_case_variant_def py_lower_def
  by (induction q r rule: list_all2_induct) (auto dest: same_letter_lower)

text \<open>
  C10, amended: classifier and selector give the same results on a query and on its
  lower-case form; on a query and its upper-case form when the query holds no sharp s
  (and its upper-case form stays below code point 256); and on two texts that differ only
  in the case of single letters.
\<close>

theorem case_invariance:
  assumes "r = py_lower q \<or> (py_upper q = Some r \<and> CHR 0xDF \<notin> set q) \<or> letter_case_variant q r"
  shows "determine_intent r = determine_intent q \<and>
         get_relevant_agents r i = get_relevant_agents q i"
proof -
  from assms have "py_lower r = py_lower q"
    by (auto simp: py_lower_idem py_upper_lower letter_case_variant_lower)
  then show ?thesis by (simp add: determine_intent_def get_relevant_agents_def)
qed

theorem case_invariance_witness:
  "py_upper ''Audit checklist for Hovione'' = Some ''AUDIT CHECKLIST FOR HOVIONE'' \<and>
   CHR 0xDF \<notin> set ''Audit checklist for Hovione'' \<and>
   determine_intent ''AUDIT CHECKLIST FOR HOVIONE'' = ''checklist'' \<and>
   determine_intent ''Audit checklist for Hovione'' = ''checklist'' \<and>
   get_relevant_agents ''AUDIT CHECKLIST FOR HOVIONE'' ''checklist'' =
     get_relevant_agents ''Audit checklist for Hovione'' ''checklist''"
proof -
  have u: "py_upper ''Audit checklist for Hovione'' = Some ''AUDIT CHECKLIST FOR HOVIONE''"
    by code_simp
  have n: "CHR 0xDF \<notin> set ''Audit checklist for Hovione''" by simp
  have d: "determine_intent ''Audit checklist for Hovione'' = ''checklist''" by code_simp
  from u n d case_invariance [of "''AUDIT CHECKLIST FOR HOVIONE''" "''Audit checklist for Hovione''" "''checklist''"]
  show ?thesis by simp
qed

text \<open>
  C10, as stated: every case variant of a query gets the same results.  The upper-case
  form of the sharp s is \<open>SS\<close>, and lower-casing gives \<open>ss\<close>: the query
  \<open>procedure\<close>, sharp s, \<open>teps\<close> is classified \<open>general\<close> and its upper-case form
  \<open>PROCEDURESSTEPS\<close> is classified \<open>checklist\<close>; the query sharp s, \<open>nc\<close> selects the
  five agents of the fall-back and its upper-case form \<open>SSNC\<close> fires the quality rule.
\<close>

theorem case_invariance_counterexample:
  "py_upper (''procedure'' @ [CHR 0xDF] @ ''teps'') = Some ''PROCEDURESSTEPS'' \<and>
   determine_intent (''procedure'' @ [CHR 0xDF] @ ''teps'') = ''general'' \<and>
   determine_intent ''PROCEDURESSTEPS'' = ''checklist'' \<and>
   py_upper ([CHR 0xDF] @ ''nc'') = Some ''SSNC'' \<and>
   get_relevant_agents ([CHR 0xDF] @ ''nc'') ''general'' =
     [''web_scraper'', ''internal_audit'', ''external_conference'', ''quality_systems'', ''sop''] \<and>
   get_relevant_agents ''SSNC'' ''general'' = [''orchestrator'', ''quality_systems'']"
proof -
  have a: "py_upper (''procedure'' @ [CHR 0xDF] @ ''teps'') = Some ''PROCEDURESSTEPS''" by code_simp
  have b: "determine_intent (''procedure'' @ [CHR 0xDF] @ ''teps'') = ''general''" by code_simp
  have c: "determine_intent ''PROCEDURESSTEPS'' = ''checklist''" by code_simp
  have d: "py_upper ([CHR 0xDF] @ ''nc'') = Some ''SSNC''" by code_simp
  have e: "get_relevant_agents ([CHR 0xDF] @ ''nc'') ''general'' =
     [''web_scraper'', ''internal_audit'', ''external_conference'', ''quality_systems'', ''sop'']" by code_simp
  have f: "get_relevant_agents ''SSNC'' ''general'' = [''orchestrator'', ''quality_systems'']" by code_simp
  from a b c d e f show ?thesis by blast
qed

section \<open>The agent selector\<close>

lemma collected_short:
  "length (collected_agents (py_lower q)) \<le> 1 \<longleftrightarrow>
     \<not> mentions company_words q \<and> \<not> mentions audit_words q \<and>
     \<not> mentions quality_words q \<and> \<not> mentions conference_words q \<and>
     \<not> mentions web_words q"
  by (simp add: collected_agents_def mentions_iff)

lemma rule_union_empty:
  "rule_union q = {} \<longleftrightarrow>
     \<not> mentions company_words q \<and> \<not> mentions audit_words q \<and>
     \<not> mentions quality_words q \<and> \<not> mentions conference_words q \<and>
     \<not> mentions web_words q"
  by (simp add: rule_union_def)

lemma set_collected:
  "set (collected_agents (py_lower q)) = insert ''orchestrator'' (rule_union q)"
  by (auto simp: collected_agents_def rule_union_def mentions_iff)

lemma orchestrator_not_rule: "''orchestrator'' \<notin> rule_union q"
  by (simp add: rule_union_def)

lemma orchestrator_not_real: "''orchestrator'' \<notin> set all_agents"
  by (simp add: all_agents_def)

lemma rule_union_real: "rule_union q \<subseteq> set all_agents"
  by (auto simp: rule_union_def all_agents_def)

lemma get_relevant_agents_cases:
  "get_relevant_agents q i =
     (if rule_union q = {} then all_agents else collected_agents (py_lower q))"
  unfolding get_relevant_agents_def Let_def collected_short rule_union_empty by simp

text \<open>
  C1. For every query text and intent the selector returns at least one real agent; and
  when no keyword rule fires (the lower-cased text contains no keyword of any of the five
  rules) it returns exactly the five real agents \<open>web_scraper\<close>, \<open>internal_audit\<close>,
  \<open>external_conference\<close>, \<open>quality_systems\<close> and \<open>sop\<close>.
\<close>

theorem selector_real_agent:
  "(\<exists>a \<in> set (get_relevant_agents q i). real_agent a) \<and>
   (\<not> mentions company_words q \<and> \<not> mentions audit_words q \<and>
    \<not> mentions quality_words q \<and> \<not> mentions conference_words q \<and>
    \<not> mentions web_words q \<longrightarrow>
      get_relevant_agents q i =
        [''web_scraper'', ''internal_audit'', ''external_conference'', ''quality_systems'', ''sop''])"
proof
  show "\<exists>a \<in> set (get_relevant_agents q i). real_agent a"
  proof (cases "rule_union q = {}")
    case True
    then have "get_relevant_agents q i = all_agents"
      by (simp add: get_relevant_agents_cases)
    then show ?thesis by (auto simp: real_agent_def all_agents_def)
  next
    case False
    then have r: "get_relevant_agents q i = collected_agents (py_lower q)"
      by (simp add: get_relevant_agents_cases)
    from False obtain a where a: "a \<in> rule_union q" by blast
    with rule_union_real have "real_agent a" by (auto simp: real_agent_def)
    moreover from a have "a \<in> set (get_relevant_agents q i)"
      by (simp add: r set_collected)
    ultimately show ?thesis by blast
  qed
next
  show "\<not> mentions company_words q \<and> \<not> mentions audit_words q \<and>
    \<not> mentions quality_words q \<and> \<not> mentions conference_words q \<and>
    \<not> mentions web_words q \<longrightarrow>
      get_relevant_agents q i =
        [''web_scraper'', ''internal_audit'', ''external_conference'', ''quality_systems'', ''sop'']"
    by (simp add: get_relevant_agents_cases rule_union_empty all_agents_def)
qed

theorem selector_real_agent_witness:
  "\<not> mentions company_words ''What is new today?'' \<and>
   \<not> mentions audit_words ''What is new today?'' \<and>
   \<not> mentions quality_words ''What is new today?'' \<and>
   \<not> mentions conference_words ''What is new today?'' \<and>
   \<not> mentions web_words ''What is new today?'' \<and>
   determine_intent ''What is new today?'' = ''general'' \<and>
   get_relevant_agents ''What is new today?'' ''general'' =
     [''web_scraper'', ''internal_audit'', ''external_conference'', ''quality_systems'', ''sop'']"
proof -
  have h: "\<not> mentions company_words ''What is new today?'' \<and>
   \<not> mentions audit_words ''What is new today?'' \<and>
   \<not> mentions quality_words ''What is new today?'' \<and>
   \<not> mentions conference_words ''What is new today?'' \<and>
   \<not> mentions web_words ''What is new today?''"
    unfolding mentions_iff by code_simp
  have g: "determine_intent ''What is new today?'' = ''general''"
    by code_simp
  from h g selector_real_agent [of "''What is new today?''" "''general''"]
  show ?thesis by blast
qed

text \<open>
  C3, as stated: the selector's result is the additive union of the five keyword rules.
  On the empty query no rule fires, so the union is empty, while the selector returns the
  five real agents: the result differs from the union, with or without the marker.
\<close>

theorem rule_union_counterexample:
  "set (get_relevant_agents [] ''general'') \<noteq> rule_union [] \<and>
   set (get_relevant_agents [] ''general'') - {''orchestrator''} \<noteq> rule_union []"
proof -
  have e: "rule_union [] = {}"
    unfolding rule_union_empty mentions_iff by code_simp
  have g: "get_relevant_agents [] ''general'' = all_agents"
    by code_simp
  show ?thesis by (simp add: e g all_agents_def)
qed

text \<open>
  C3, amended: leaving the marker aside, the selector's result is as a set the additive
  union of the five keyword rules whenever that union is not empty (some rule fires), and
  the five real agents when no rule fires.
\<close>

theorem selector_rule_union:
  "set (get_relevant_agents q i) - {''orchestrator''} =
     (if rule_union q = {} then set all_agents else rule_union q)"
proof (cases "rule_union q = {}")
  case True
  then have "get_relevant_agents q i = all_agents"
    by (simp add: get_relevant_agents_cases)
  with True orchestrator_not_real show ?thesis by simp
next
  case False
  then have "get_relevant_agents q i = collected_agents (py_lower q)"
    by (simp add: get_relevant_agents_cases)
  with False orchestrator_not_rule [of q] show ?thesis
    by (simp add: set_collected)
qed

theorem selector_rule_union_witness:
  "rule_union ''Hovione deviation and FDA warning'' =
     {''quality_systems'', ''external_conference'', ''web_scraper''} \<and>
   set (get_relevant_agents ''Hovione deviation and FDA warning'' ''general'') - {''orchestrator''} =
     {''quality_systems'', ''external_conference'', ''web_scraper''}"
proof -
  have m: "mentions company_words ''Hovione deviation and FDA warning'' \<and>
    \<not> mentions audit_words ''Hovione deviation and FDA warning'' \<and>
    mentions quality_words ''Hovione deviation and FDA warning'' \<and>
    \<not> mentions conference_words ''Hovione deviation and FDA warning'' \<and>
    mentions web_words ''Hovione deviation and FDA warning''"
    unfolding mentions_iff by code_simp
  then have u: "rule_union ''Hovione deviation and FDA warning'' =
     {''quality_systems'', ''external_conference'', ''web_scraper''}"
    by (auto simp: rule_union_def)
  with selector_rule_union [of "''Hovione deviation and FDA warning''" "''general''"]
  show ?thesis by simp
qed

text \<open>
  C5. For the query \<open>Generate a checklist for Hovione sterile manufacturing audit\<close> the
  classifier answers \<open>checklist\<close>, and the selector's result (the marker, then the
  additions of the company rule and of the audit rule) includes \<open>internal_audit\<close>,
  \<open>sop\<close>, \<open>quality_systems\<close> and \<open>external_conference\<close>.
\<close>

theorem hovione_scenario:
  "determine_intent ''Generate a checklist for Hovione sterile manufacturing audit'' = ''checklist'' \<and>
   get_relevant_agents ''Generate a checklist for Hovione sterile manufacturing audit'' ''checklist'' =
     [''orchestrator'', ''quality_systems'', ''external_conference'', ''internal_audit'', ''sop''] \<and>
   {''internal_audit'', ''sop'', ''quality_systems'', ''external_conference''} \<subseteq>
     set (get_relevant_agents ''Generate a checklist for Hovione sterile manufacturing audit'' ''checklist'')"
proof -
  have i: "determine_intent ''Generate a checklist for Hovione sterile manufacturing audit'' = ''checklist''"
    by code_simp
  have g: "get_relevant_agents ''Generate a checklist for Hovione sterile manufacturing audit'' ''checklist'' =
     [''orchestrator'', ''quality_systems'', ''external_conference'', ''internal_audit'', ''sop'']"
    by code_simp
  show ?thesis unfolding i g by simp
qed

text \<open>
  C6, as stated: the returned sequence never holds a name twice.  The query
  \<open>Hovione quality deviations\<close> fires the company rule and the quality rule, and both
  append \<open>quality_systems\<close>.
\<close>

theorem distinct_counterexample:
  "\<not> distinct (get_relevant_agents ''Hovione quality deviations'' ''general'')"
proof -
  have "get_relevant_agents ''Hovione quality deviations'' ''general'' =
     [''orchestrator'', ''quality_systems'', ''external_conference'', ''quality_systems'']"
    by code_simp
  then show ?thesis by simp
qed

text \<open>
  C6, amended: the returned sequence is free of duplicates exactly when the company rule
  does not fire together with the quality rule or the conference rule.  A name occurs
  twice exactly when it is \<open>quality_systems\<close> and the company and quality rules both
  fire, or \<open>external_conference\<close> and the company and conference rules both fire; no
  name occurs more than twice.
\<close>

theorem selector_duplicates:
  "(distinct (get_relevant_agents q i) \<longleftrightarrow>
      \<not> (mentions company_words q \<and> (mentions quality_words q \<or> mentions conference_words q))) \<and>
   (count_list (get_relevant_agents q i) a = 2 \<longleftrightarrow>
      (a = ''quality_systems'' \<and> mentions company_words q \<and> mentions quality_words q) \<or>
      (a = ''external_conference'' \<and> mentions company_words q \<and> mentions conference_words q)) \<and>
   count_list (get_relevant_agents q i) a \<le> 2"
proof (intro conjI)
  show "distinct (get_relevant_agents q i) \<longleftrightarrow>
      \<not> (mentions company_words q \<and> (mentions quality_words q \<or> mentions conference_words q))"
    by (auto simp: get_relevant_agents_def collected_agents_def all_agents_def Let_def mentions_iff)
  show "count_list (get_relevant_agents q i) a = 2 \<longleftrightarrow>
      (a = ''quality_systems'' \<and> mentions company_words q \<and> mentions quality_words q) \<or>
      (a = ''external_conference'' \<and> mentions company_words q \<and> mentions conference_words q)"
    by (auto simp: get_relevant_agents_def collected_agents_def all_agents_def Let_def mentions_iff)
  show "count_list (get_relevant_agents q i) a \<le> 2"
    by (auto simp: get_relevant_agents_def collected_agents_def all_agents_def Let_def)
qed

theorem selector_duplicates_witness:
  "mentions company_words ''Hovione quality deviations'' \<and>
   mentions quality_words ''Hovione quality deviations'' \<and>
   \<not> mentions conference_words ''Hovione quality deviations'' \<and>
   \<not> distinct (get_relevant_agents ''Hovione quality deviations'' ''general'') \<and>
   count_list (get_relevant_agents ''Hovione quality deviations'' ''general'') ''quality_systems'' = 2 \<and>
   count_list (get_relevant_agents ''Hovione quality deviations'' ''general'') ''external_conference'' \<noteq> 2 \<and>
   \<not> mentions company_words ''quality audit before the FDA meeting'' \<and>
   distinct (get_relevant_agents ''quality audit before the FDA meeting'' ''general'')"
proof -
  have m: "mentions company_words ''Hovione quality deviations'' \<and>
   mentions quality_words ''Hovione quality deviations'' \<and>
   \<not> mentions conference_words ''Hovione quality deviations''"
    unfolding mentions_iff by code_simp
  have n: "\<not> mentions company_words ''quality audit before the FDA meeting''"
    unfolding mentions_iff by code_simp
  from m n
    selector_duplicates [of "''Hovione quality deviations''" "''general''" "''quality_systems''"]
    selector_duplicates [of "''Hovione quality deviations''" "''general''" "''external_conference''"]
    selector_duplicates [of "''quality audit before the FDA meeting''" "''general''" "''sop''"]
  show ?thesis by simp
qed

text \<open>
  C7. The selector's result always holds the marker \<open>orchestrator\<close>, also when the
  fall-back applies.  The source appends the marker first (under the comment
  \<open>Always include orchestrator\<close>) and then, when no rule has fired, replaces the whole
  list by the five real agents: on such a query the marker is missing from the result.
\<close>

theorem fallback_without_orchestrator:
  "''orchestrator'' \<notin> set (get_relevant_agents ''What is new today?'' ''general'')"
proof -
  have "get_relevant_agents ''What is new today?'' ''general'' = all_agents"
    by code_simp
  then show ?thesis by (simp add: all_agents_def)
qed

lemma mentions_embedded:
  "w \<in> set ws \<Longrightarrow> py_lower k = a @ w @ b \<Longrightarrow> mentions ws (p @ k @ t)"
proof -
  assume w: "w \<in> set ws" and k: "py_lower k = a @ w @ b"
  have "py_lower (p @ k @ t) = (py_lower p @ a) @ w @ (b @ py_lower t)"
    by (simp add: py_lower_append k)
  then have "occurs_in w (py_lower (p @ k @ t))"
    unfolding occurs_in_def by blast
  with w show ?thesis unfolding mentions_def by blast
qed

lemma mentions_append:
  "mentions (ws @ vs) q \<longleftrightarrow> mentions ws q \<or> mentions vs q"
  by (auto simp: mentions_def)

lemma marker_iff:
  "''orchestrator'' \<in> set (get_relevant_agents q i) \<longleftrightarrow> rule_union q \<noteq> {}"
  using orchestrator_not_real by (simp add: get_relevant_agents_cases set_collected)

text \<open>
  C9. Keywords are matched as substrings, not as whole words, in the classifier and in
  the selector: the classifier answers \<open>checklist\<close> exactly when a checklist keyword
  occurs somewhere in the lower-cased text, and the selector keeps its marker (some rule
  has fired) exactly when a keyword of one of the five rules occurs somewhere in it.  So
  every text that contains \<open>blacklist\<close> is classified \<open>checklist\<close>; \<open>the blacklist\<close>
  is, although none of its words is a checklist keyword; and \<open>prevent delays\<close> fires
  the conference rule through \<open>event\<close>, although none of its words is a conference
  keyword.
\<close>

theorem substring_matching:
  "(determine_intent q = ''checklist'' \<longleftrightarrow>
      (\<exists>w \<in> set checklist_words. \<exists>a b. py_lower q = a @ w @ b)) \<and>
   (''orchestrator'' \<in> set (get_relevant_agents q i) \<longleftrightarrow>
      (\<exists>w \<in> set (company_words @ audit_words @ quality_words @ conference_words @ web_words).
         \<exists>a b. py_lower q = a @ w @ b)) \<and>
   determine_intent (p @ ''blacklist'' @ t) = ''checklist'' \<and>
   \<not> whole_word_match checklist_words ''the blacklist'' \<and>
   determine_intent ''the blacklist'' = ''checklist'' \<and>
   \<not> whole_word_match conference_words ''prevent delays'' \<and>
   get_relevant_agents ''prevent delays'' i = [''orchestrator'', ''external_conference'']"
proof (intro conjI)
  have "determine_intent q = ''checklist'' \<longleftrightarrow> mentions checklist_words q"
    by (simp add: determine_intent_def Let_def mentions_iff)
  then show "determine_intent q = ''checklist'' \<longleftrightarrow>
      (\<exists>w \<in> set checklist_words. \<exists>a b. py_lower q = a @ w @ b)"
    by (simp add: mentions_def occurs_in_def)
  have "''orchestrator'' \<in> set (get_relevant_agents q i) \<longleftrightarrow>
      mentions (company_words @ audit_words @ quality_words @ conference_words @ web_words) q"
    unfolding marker_iff rule_union_empty mentions_append by blast
  then show "''orchestrator'' \<in> set (get_relevant_agents q i) \<longleftrightarrow>
      (\<exists>w \<in> set (company_words @ audit_words @ quality_words @ conference_words @ web_words).
         \<exists>a b. py_lower q = a @ w @ b)"
    unfolding mentions_def occurs_in_def .
  have l: "py_lower ''blacklist'' = ''black'' @ ''list'' @ []" by code_simp
  have "mentions checklist_words (p @ ''blacklist'' @ t)"
    by (rule mentions_embedded [OF _ l]) (simp add: checklist_words_def)
  then show "determine_intent (p @ ''blacklist'' @ t) = ''checklist''"
    by (simp add: determine_intent_def mentions_iff)
  show "\<not> whole_word_match checklist_words ''the blacklist''" by code_simp
  show "determine_intent ''the blacklist'' = ''checklist''" by code_simp
  show "\<not> whole_word_match conference_words ''prevent delays''" by code_simp
  have "get_relevant_agents ''prevent delays'' [] = [''orchestrator'', ''external_conference'']"
    by code_simp
  then show "get_relevant_agents ''prevent delays'' i = [''orchestrator'', ''external_conference'']"
    by (simp add: get_relevant_agents_def)
qed

theorem substring_matching_witness:
  "determine_intent ''blacklisted suppliers'' = ''checklist'' \<and>
   \<not> whole_word_match checklist_words ''blacklisted suppliers'' \<and>
   determine_intent ''Black suppliers'' \<noteq> ''checklist'' \<and>
   ''orchestrator'' \<notin> set (get_relevant_agents ''Black suppliers'' ''general'')"
proof -
  have a: "\<not> whole_word_match checklist_words ''blacklisted suppliers''" by code_simp
  have b: "\<not> mentions checklist_words ''Black suppliers''"
    unfolding mentions_iff by code_simp
  have c: "\<not> mentions (company_words @ audit_words @ quality_words @ conference_words @ web_words)
              ''Black suppliers''"
    unfolding mentions_iff by code_simp
  from a b c
    substring_matching [of "''Black suppliers''" "''general''" "[]" "''ed suppliers''"]
  show ?thesis by (simp add: mentions_def occurs_in_def)
qed

section \<open>The metrics of the response\<close>








end
